theory Spec2Isabelle
  imports Complex_Main
begin

section \<open>Point-to-grid rasterisation with focal-mean smoothing\<close>

text \<open>
  The development embeds the notebook function
  \<^verbatim>\<open>create_raster_from_points_with_smoothing\<close> and the batch driver
  \<^verbatim>\<open>process_shapefiles\<close> of \<^verbatim>\<open>IS2_GL_Rasterize.ipynb\<close>.

  Numbers are modelled as exact reals: coordinates, attribute values and cell values
  are finite, and rounding of the float32/float64 arithmetic is not represented.
  A cell of the freshly allocated raster holds NaN ("no value"); it is modelled as
  \<open>None\<close>. File access (the reference raster, the shapefiles, the output raster) is
  modelled by collaborator functions that return an exception or a value.
\<close>

subsection \<open>Data model\<close>

text \<open>\<^verbatim>\<open>ref.bounds\<close>: the bounding box of the reference raster.\<close>

record bounds =
  left :: real
  bottom :: real
  right :: real
  top_y :: real

text \<open>One row of the GeoDataFrame: \<^verbatim>\<open>row.geometry.x\<close>, \<^verbatim>\<open>row.geometry.y\<close> and
  \<^verbatim>\<open>row[column]\<close>.\<close>

record sample =
  geometry_x :: real
  geometry_y :: real
  column_value :: real

datatype exn = ZeroDivisionError | ValueError | IOError string

datatype warning = InvalidValue | DivideByZero

type_synonym grid = "real list list"

text \<open>\<^verbatim>\<open>nodata = -9999\<close>\<close>

definition nodata :: real where
  "nodata = - 9999"

subsection \<open>Grid rasteriser\<close>

text \<open>Python's \<^verbatim>\<open>int(q)\<close> on a float: the fractional part is dropped, rounding
  towards zero.\<close>

definition py_int :: "real \<Rightarrow> int" where
  "py_int q = (if 0 \<le> q then \<lfloor>q\<rfloor> else \<lceil>q\<rceil>)"

text \<open>\<^verbatim>\<open>width = int((bounds.right - bounds.left) / pixel_size)\<close> and
  \<^verbatim>\<open>height = int((bounds.top - bounds.bottom) / pixel_size)\<close>; the division raises
  when \<^verbatim>\<open>pixel_size\<close> is zero.\<close>

definition raster_width :: "bounds \<Rightarrow> real \<Rightarrow> exn + int" where
  "raster_width b pixel_size =
     (if pixel_size = 0 then Inl ZeroDivisionError
      else Inr (py_int ((right b - left b) / pixel_size)))"

definition raster_height :: "bounds \<Rightarrow> real \<Rightarrow> exn + int" where
  "raster_height b pixel_size =
     (if pixel_size = 0 then Inl ZeroDivisionError
      else Inr (py_int ((top_y b - bottom b) / pixel_size)))"

text \<open>\<^verbatim>\<open>np.full((height, width), v)\<close>: a negative dimension raises ValueError.\<close>

definition np_full :: "int \<Rightarrow> int \<Rightarrow> 'a \<Rightarrow> exn + 'a list list" where
  "np_full height width v =
     (if height < 0 \<or> width < 0 then Inl ValueError
      else Inr (replicate (nat height) (replicate (nat width) v)))"

text \<open>The index computation of the loop body:
  \<^verbatim>\<open>col = int((x - bounds.left) / pixel_size)\<close>,
  \<^verbatim>\<open>row = int((bounds.top - y) / pixel_size)\<close>.\<close>

definition point_col :: "bounds \<Rightarrow> real \<Rightarrow> sample \<Rightarrow> int" where
  "point_col b pixel_size p = py_int ((geometry_x p - left b) / pixel_size)"

definition point_row :: "bounds \<Rightarrow> real \<Rightarrow> sample \<Rightarrow> int" where
  "point_row b pixel_size p = py_int ((top_y b - geometry_y p) / pixel_size)"

text \<open>One iteration of the loop over \<^verbatim>\<open>gdf.iterrows()\<close>.\<close>

definition rasterize_point ::
  "bounds \<Rightarrow> real \<Rightarrow> int \<Rightarrow> int \<Rightarrow> real option list list \<Rightarrow> sample \<Rightarrow> real option list list"
where
  "rasterize_point b pixel_size width height raster p =
     (let v = column_value p;
          col = point_col b pixel_size p;
          row = point_row b pixel_size p
      in if 0 \<le> col \<and> col < width \<and> 0 \<le> row \<and> row < height then
           (case raster ! nat row ! nat col of
              None \<Rightarrow> raster[nat row := (raster ! nat row)[nat col := Some v]]
            | Some cur \<Rightarrow>
                raster[nat row := (raster ! nat row)[nat col := Some ((cur + v) / 2)]])
         else raster)"

fun rasterize_points ::
  "bounds \<Rightarrow> real \<Rightarrow> int \<Rightarrow> int \<Rightarrow> real option list list \<Rightarrow> sample list \<Rightarrow> real option list list"
where
  "rasterize_points b pixel_size width height raster [] = raster"
| "rasterize_points b pixel_size width height raster (p # gdf) =
     rasterize_points b pixel_size width height
       (rasterize_point b pixel_size width height raster p) gdf"

text \<open>\<^verbatim>\<open>raster = np.where(np.isnan(raster), nodata, raster)\<close>\<close>

definition fill_nodata :: "real option list list \<Rightarrow> grid" where
  "fill_nodata raster = map (map (\<lambda>c. case c of None \<Rightarrow> nodata | Some v \<Rightarrow> v)) raster"

text \<open>The grid before smoothing: dimensions, allocation, the binning loop and the
  replacement of NaN by the sentinel.\<close>

definition binned_raster :: "sample list \<Rightarrow> bounds \<Rightarrow> real \<Rightarrow> exn + grid" where
  "binned_raster gdf b pixel_size =
     (case raster_width b pixel_size of
        Inl e \<Rightarrow> Inl e
      | Inr width \<Rightarrow>
         (case raster_height b pixel_size of
            Inl e \<Rightarrow> Inl e
          | Inr height \<Rightarrow>
             (case np_full height width None of
                Inl e \<Rightarrow> Inl e
              | Inr raster \<Rightarrow>
                  Inr (fill_nodata
                         (rasterize_points b pixel_size width height raster gdf)))))"

subsection \<open>Gap-filling smoother\<close>

text \<open>
  Modelled from the spec: \<^verbatim>\<open>scipy.ndimage.uniform_filter\<close>, the library's square
  sliding-window arithmetic-mean filter, is not part of the repository. It is modelled
  with the defaults the call uses (\<^verbatim>\<open>mode='reflect'\<close>, \<^verbatim>\<open>origin=0\<close>): the filter is
  applied along axis 0 and then along axis 1; along an axis of length \<open>n\<close> the
  window of output \<open>i\<close> covers the indices \<open>i - size div 2, \<dots>, i - size div 2 + size - 1\<close>,
  an index outside the line is reflected about the edge of the last cell
  (\<open>d c b a | a b c d | d c b a\<close>), and the window sum is divided by \<open>size\<close>.
  An axis whose size is not greater than 1 is not filtered.
\<close>

definition reflect_index :: "nat \<Rightarrow> int \<Rightarrow> nat" where
  "reflect_index n k =
     (let j = k mod (2 * int n)
      in if j < int n then nat j else nat (2 * int n - 1 - j))"

definition uniform_filter1d :: "real list \<Rightarrow> nat \<Rightarrow> real list" where
  "uniform_filter1d line filter_size =
     map (\<lambda>i. (\<Sum>j\<leftarrow>[0..<filter_size].
                 line ! reflect_index (length line) (int i - int (filter_size div 2) + int j))
              / real filter_size)
       [0..<length line]"

definition grid_column :: "grid \<Rightarrow> nat \<Rightarrow> real list" where
  "grid_column g c = map (\<lambda>row. row ! c) g"

definition filter_axis0 :: "grid \<Rightarrow> nat \<Rightarrow> grid" where
  "filter_axis0 g filter_size =
     map (\<lambda>i. map (\<lambda>c. uniform_filter1d (grid_column g c) filter_size ! i) [0..<length (g ! i)])
       [0..<length g]"

definition filter_axis1 :: "grid \<Rightarrow> nat \<Rightarrow> grid" where
  "filter_axis1 g filter_size = map (\<lambda>row. uniform_filter1d row filter_size) g"

definition uniform_filter :: "grid \<Rightarrow> int \<Rightarrow> grid" where
  "uniform_filter g filter_size =
     (if 1 < filter_size then filter_axis1 (filter_axis0 g (nat filter_size)) (nat filter_size) else g)"

text \<open>\<^verbatim>\<open>valid_mask = raster != nodata\<close>\<close>

definition valid_mask :: "grid \<Rightarrow> bool list list" where
  "valid_mask raster = map (map (\<lambda>v. v \<noteq> nodata)) raster"

text \<open>\<^verbatim>\<open>np.where(valid_mask, raster, 0)\<close> and \<^verbatim>\<open>valid_mask.astype(float)\<close>\<close>

definition zeroed :: "bool list list \<Rightarrow> grid \<Rightarrow> grid" where
  "zeroed vmask raster = map2 (map2 (\<lambda>m v. if m then v else 0)) vmask raster"

definition astype_float :: "bool list list \<Rightarrow> grid" where
  "astype_float vmask = map (map (\<lambda>m. if m then 1 else 0)) vmask"

text \<open>
  \<^verbatim>\<open>smoothed_raster / weight_mask\<close> is an argument of \<^verbatim>\<open>np.where\<close>, so the whole
  quot array is computed before any selection takes place. On floats a zero divisor
  does not raise: the cell becomes NaN (0/0) or an infinity, modelled as \<open>None\<close>, and a
  RuntimeWarning is issued.
\<close>

definition divide_cell :: "real \<Rightarrow> real \<Rightarrow> warning list \<times> real option" where
  "divide_cell a w =
     (if w \<noteq> 0 then ([], Some (a / w))
      else if a = 0 then ([InvalidValue], None)
      else ([DivideByZero], None))"

definition np_divide :: "grid \<Rightarrow> grid \<Rightarrow> warning list \<times> real option list list" where
  "np_divide a w =
     (let cells = map2 (map2 divide_cell) a w
      in (remdups (concat (map fst (concat cells))), map (map snd) cells))"

text \<open>\<^verbatim>\<open>np.where(weight_mask > 0, quot, nodata)\<close>\<close>

definition where_positive :: "grid \<Rightarrow> real option list list \<Rightarrow> real option list list" where
  "where_positive weight_mask quot =
     map2 (map2 (\<lambda>w q. if 0 < w then q else Some nodata)) weight_mask quot"

text \<open>The smoothing stage: the warnings issued and the array \<^verbatim>\<open>raster_smoothed\<close>.\<close>

definition raster_smoothed :: "grid \<Rightarrow> int \<Rightarrow> warning list \<times> real option list list" where
  "raster_smoothed raster smoothing_window =
     (let vmask = valid_mask raster;
          smoothed_raster = uniform_filter (zeroed vmask raster) smoothing_window;
          weight_mask = uniform_filter (astype_float vmask) smoothing_window;
          (warnings, quot) = np_divide smoothed_raster weight_mask
      in (warnings, where_positive weight_mask quot))"

subsection \<open>The whole function and the batch driver\<close>

text \<open>
  \<^verbatim>\<open>create_raster_from_points_with_smoothing\<close>: the reference raster is opened by the
  collaborator \<open>open_ref\<close>, the result is handed to the collaborator \<open>write_raster\<close>.
  Every exception leaves the function at once.
\<close>

definition create_raster_from_points_with_smoothing ::
  "(string \<Rightarrow> exn + bounds) \<Rightarrow> (string \<Rightarrow> real option list list \<Rightarrow> exn + unit) \<Rightarrow>
   sample list \<Rightarrow> string \<Rightarrow> real \<Rightarrow> string \<Rightarrow> int \<Rightarrow> exn + warning list"
where
  "create_raster_from_points_with_smoothing open_ref write_raster
       gdf reference_raster_path pixel_size output_raster_path smoothing_window =
     (case open_ref reference_raster_path of
        Inl e \<Rightarrow> Inl e
      | Inr b \<Rightarrow>
         (case binned_raster gdf b pixel_size of
            Inl e \<Rightarrow> Inl e
          | Inr raster \<Rightarrow>
             (case raster_smoothed raster smoothing_window of
                (warnings, out) \<Rightarrow>
                  (case write_raster output_raster_path out of
                     Inl e \<Rightarrow> Inl e
                   | Inr u \<Rightarrow> Inr warnings))))"

text \<open>What \<^verbatim>\<open>process_shapefiles\<close> prints for one shapefile.\<close>

datatype log_line = Processed string string | Error_processing string exn

text \<open>The body of the \<^verbatim>\<open>try\<close> block for one shapefile stem.\<close>

definition process_one ::
  "(string \<Rightarrow> exn + sample list) \<Rightarrow> (string \<Rightarrow> exn + bounds) \<Rightarrow>
   (string \<Rightarrow> real option list list \<Rightarrow> exn + unit) \<Rightarrow>
   string \<Rightarrow> string \<Rightarrow> real \<Rightarrow> int \<Rightarrow> string \<Rightarrow> exn + string"
where
  "process_one read_file open_ref write_raster
       reference_raster_path output_folder pixel_size smoothing_window stem =
     (case read_file (stem @ ''.shp'') of
        Inl e \<Rightarrow> Inl e
      | Inr gdf \<Rightarrow>
         (let output_raster_path = output_folder @ ''/'' @ stem @ ''.tif''
          in (case create_raster_from_points_with_smoothing open_ref write_raster gdf
                     reference_raster_path pixel_size output_raster_path smoothing_window of
                Inl e \<Rightarrow> Inl e
              | Inr ws \<Rightarrow> Inr output_raster_path)))"

text \<open>The loop over the shapefiles; \<open>out\<close> is what has been printed so far. The
  \<^verbatim>\<open>except Exception\<close> clause turns a failure of the body into a printed line.\<close>

fun process_shapefiles ::
  "(string \<Rightarrow> exn + sample list) \<Rightarrow> (string \<Rightarrow> exn + bounds) \<Rightarrow>
   (string \<Rightarrow> real option list list \<Rightarrow> exn + unit) \<Rightarrow>
   string \<Rightarrow> string \<Rightarrow> real \<Rightarrow> int \<Rightarrow> log_line list \<Rightarrow> string list \<Rightarrow> log_line list"
where
  "process_shapefiles read_file open_ref write_raster
       reference_raster_path output_folder pixel_size smoothing_window out [] = out"
| "process_shapefiles read_file open_ref write_raster
       reference_raster_path output_folder pixel_size smoothing_window out (stem # rest) =
     process_shapefiles read_file open_ref write_raster
       reference_raster_path output_folder pixel_size smoothing_window
       (out @ [case process_one read_file open_ref write_raster
                      reference_raster_path output_folder pixel_size smoothing_window stem of
                 Inl e \<Rightarrow> Error_processing (stem @ ''.shp'') e
               | Inr output_raster_path \<Rightarrow> Processed (stem @ ''.shp'') output_raster_path])
       rest"

subsection \<open>Notions used in the statements\<close>

text \<open>A grid with \<open>h\<close> rows of \<open>w\<close> cells each: the shape of a two-dimensional array.\<close>

definition rect :: "nat \<Rightarrow> nat \<Rightarrow> 'a list list \<Rightarrow> bool" where
  "rect h w g = (length g = h \<and> (\<forall>row \<in> set g. length row = w))"

text \<open>The collision policy in words: the first value is taken as it is, each later
  value is averaged with the value the cell holds at that moment.\<close>

fun pairwise_average :: "real option \<Rightarrow> real list \<Rightarrow> real option" where
  "pairwise_average cur [] = cur"
| "pairwise_average None (v # vs) = pairwise_average (Some v) vs"
| "pairwise_average (Some cur) (v # vs) = pairwise_average (Some ((cur + v) / 2)) vs"

text \<open>The nine cells of the 3 by 3 window centred on cell \<open>(r, c)\<close>, row by row.\<close>

definition neighbourhood :: "grid \<Rightarrow> nat \<Rightarrow> nat \<Rightarrow> real list" where
  "neighbourhood g r c = [g ! i ! j. i \<leftarrow> [r - 1, r, r + 1], j \<leftarrow> [c - 1, c, c + 1]]"

section \<open>Properties of the rasteriser\<close>

subsection \<open>Shape and cell contents\<close>

lemma rect_replicate: "rect h w (replicate h (replicate w v))"
  by (simp add: rect_def)

lemma rect_update:
  "rect h w g \<Longrightarrow> r < h \<Longrightarrow> rect h w (g[r := (g ! r)[c := v]])"
  unfolding rect_def by (auto dest!: set_update_subset_insert [THEN subsetD])

lemma rect_rasterize_point:
  "rect h w raster \<Longrightarrow> rect h w (rasterize_point b ps (int w) (int h) raster p)"
  unfolding rasterize_point_def Let_def
  by (auto split: option.splits intro!: rect_update)

lemma rect_rasterize_points:
  "rect h w raster \<Longrightarrow> rect h w (rasterize_points b ps (int w) (int h) raster gdf)"
  by (induction gdf arbitrary: raster) (simp_all add: rect_rasterize_point)

lemma nth_update2:
  "r < length g \<Longrightarrow> c < length (g ! r) \<Longrightarrow> i < length g \<Longrightarrow>
   g[i := (g ! i)[j := v]] ! r ! c = (if i = r \<and> j = c then v else g ! r ! c)"
  by (auto simp: nth_list_update)

lemma rasterize_point_cell:
  assumes "rect h w raster" "r < h" "c < w"
  shows "rasterize_point b ps (int w) (int h) raster p ! r ! c =
     (if point_row b ps p = int r \<and> point_col b ps p = int c
      then pairwise_average (raster ! r ! c) [column_value p]
      else raster ! r ! c)"
proof -
  have len: "length raster = h" "length (raster ! r) = w"
    using assms by (simp_all add: rect_def)
  show ?thesis
    unfolding rasterize_point_def Let_def
    using assms len
    by (auto simp: nth_update2 split: option.splits)
qed

lemma rasterize_points_cell:
  assumes "rect h w raster" "r < h" "c < w"
  shows "rasterize_points b ps (int w) (int h) raster gdf ! r ! c =
     pairwise_average (raster ! r ! c)
       (map column_value
          (filter (\<lambda>p. point_row b ps p = int r \<and> point_col b ps p = int c) gdf))"
  using assms
proof (induction gdf arbitrary: raster)
  case Nil
  then show ?case by simp
next
  case (Cons p gdf)
  have "rect h w (rasterize_point b ps (int w) (int h) raster p)"
    using Cons.prems(1) by (rule rect_rasterize_point)
  from Cons.IH [OF this Cons.prems(2,3)] show ?case
    by (cases "raster ! r ! c")
       (simp_all add: rasterize_point_cell [OF Cons.prems])
qed

lemma py_int_nonneg: "0 \<le> q \<Longrightarrow> py_int q = \<lfloor>q\<rfloor>"
  by (simp add: py_int_def)

lemma py_int_mono: "q \<le> q' \<Longrightarrow> py_int q \<le> py_int q'"
  unfolding py_int_def
  by (auto intro: floor_mono ceiling_mono)
     (meson ceiling_le_zero dual_order.trans less_eq_real_def not_le zero_le_floor)

lemma py_int_le_minus_one: "q \<le> - 1 \<Longrightarrow> py_int q < 0"
proof -
  assume "q \<le> - 1"
  then have "\<lceil>q\<rceil> \<le> - 1" by (simp add: ceiling_le_iff)
  with \<open>q \<le> - 1\<close> show ?thesis by (simp add: py_int_def)
qed

lemma rasterize_points_append:
  "rasterize_points b ps w h raster (xs @ ys) =
   rasterize_points b ps w h (rasterize_points b ps w h raster xs) ys"
  by (induction xs arbitrary: raster) simp_all

lemma out_of_reach_index:
  assumes "0 < pixel_size"
    and "right b \<le> geometry_x p \<or> geometry_x p \<le> left b - pixel_size \<or>
         geometry_y p \<le> bottom b \<or> top_y b + pixel_size \<le> geometry_y p"
    and "raster_width b pixel_size = Inr width"
    and "raster_height b pixel_size = Inr height"
  shows "\<not> (0 \<le> point_col b pixel_size p \<and> point_col b pixel_size p < width \<and>
            0 \<le> point_row b pixel_size p \<and> point_row b pixel_size p < height)"
proof -
  have w: "width = py_int ((right b - left b) / pixel_size)"
    and h: "height = py_int ((top_y b - bottom b) / pixel_size)"
    using assms(1,3,4) by (simp_all add: raster_width_def raster_height_def)
  consider (r) "right b \<le> geometry_x p" | (l) "geometry_x p \<le> left b - pixel_size"
    | (bo) "geometry_y p \<le> bottom b" | (t) "top_y b + pixel_size \<le> geometry_y p"
    using assms(2) by blast
  then show ?thesis
  proof cases
    case r
    then have "(right b - left b) / pixel_size \<le> (geometry_x p - left b) / pixel_size"
      using assms(1) by (simp add: divide_right_mono)
    then have "width \<le> point_col b pixel_size p"
      unfolding w point_col_def by (rule py_int_mono)
    then show ?thesis by simp
  next
    case l
    then have "(geometry_x p - left b) / pixel_size \<le> - 1"
      using assms(1) by (simp add: pos_divide_le_eq)
    then have "point_col b pixel_size p < 0"
      unfolding point_col_def by (rule py_int_le_minus_one)
    then show ?thesis by simp
  next
    case bo
    then have "(top_y b - bottom b) / pixel_size \<le> (top_y b - geometry_y p) / pixel_size"
      using assms(1) by (simp add: divide_right_mono)
    then have "height \<le> point_row b pixel_size p"
      unfolding h point_row_def by (rule py_int_mono)
    then show ?thesis by simp
  next
    case t
    then have "(top_y b - geometry_y p) / pixel_size \<le> - 1"
      using assms(1) by (simp add: pos_divide_le_eq)
    then have "point_row b pixel_size p < 0"
      unfolding point_row_def by (rule py_int_le_minus_one)
    then show ?thesis by simp
  qed
qed

lemma rect_fill_nodata: "rect h w raster \<Longrightarrow> rect h w (fill_nodata raster)"
  by (auto simp: rect_def fill_nodata_def)

lemma fill_nodata_cell:
  "r < length raster \<Longrightarrow> c < length (raster ! r) \<Longrightarrow>
   fill_nodata raster ! r ! c = (case raster ! r ! c of None \<Rightarrow> nodata | Some v \<Rightarrow> v)"
  by (simp add: fill_nodata_def)

lemma binned_raster_Inr:
  assumes "binned_raster gdf b pixel_size = Inr g"
  obtains width height where
    "raster_width b pixel_size = Inr (int width)"
    "raster_height b pixel_size = Inr (int height)"
    "g = fill_nodata (rasterize_points b pixel_size (int width) (int height)
            (replicate height (replicate width None)) gdf)"
proof -
  from assms obtain wd ht where wh:
    "raster_width b pixel_size = Inr wd" "raster_height b pixel_size = Inr ht"
    "0 \<le> wd" "0 \<le> ht"
    "g = fill_nodata (rasterize_points b pixel_size wd ht
            (replicate (nat ht) (replicate (nat wd) None)) gdf)"
    by (auto simp: binned_raster_def np_full_def split: sum.splits if_splits)
  show thesis
    by (rule that [of "nat wd" "nat ht"]) (use wh in simp_all)
qed

lemma pairwise_average_Some:
  "pairwise_average (Some a) vs = Some (foldl (\<lambda>cur x. (cur + x) / 2) a vs)"
  by (induction vs arbitrary: a) simp_all

lemma binned_raster_cell:
  assumes "binned_raster gdf b pixel_size = Inr g" "r < length g" "c < length (g ! r)"
  shows "g ! r ! c =
     (case pairwise_average None (map column_value
              (filter (\<lambda>p. point_row b pixel_size p = int r \<and>
                           point_col b pixel_size p = int c) gdf)) of
        None \<Rightarrow> nodata | Some v \<Rightarrow> v)"
proof -
  from assms(1) obtain width height where g:
    "g = fill_nodata (rasterize_points b pixel_size (int width) (int height)
            (replicate height (replicate width None)) gdf)"
    by (rule binned_raster_Inr)
  let ?raster = "rasterize_points b pixel_size (int width) (int height)
            (replicate height (replicate width None)) gdf"
  have rect: "rect height width ?raster"
    by (rule rect_rasterize_points) (rule rect_replicate)
  then have "rect height width g"
    unfolding g by (rule rect_fill_nodata)
  with assms(2,3) have rc: "r < height" "c < width"
    by (simp_all add: rect_def)
  have len: "r < length ?raster" "c < length (?raster ! r)"
    using rect rc by (simp_all add: rect_def)
  have "?raster ! r ! c = pairwise_average None (map column_value
              (filter (\<lambda>p. point_row b pixel_size p = int r \<and>
                           point_col b pixel_size p = int c) gdf))"
    using rasterize_points_cell [OF rect_replicate rc, of b pixel_size None gdf] rc
    by simp
  then show ?thesis
    unfolding g by (simp add: fill_nodata_cell [OF len])
qed

subsection \<open>Binning: index computation, bounds, shape\<close>

text \<open>
  Claim C2, as amended. Let the cell size be positive. A sample that lies at or beyond
  the right edge (\<open>x \<ge> right\<close>), at or below the bottom edge (\<open>y \<le> bottom\<close>), at
  least one cell to the left of the left edge (\<open>x \<le> left - cell_size\<close>) or at least one
  cell above the top edge (\<open>y \<ge> top + cell_size\<close>) fails the index test of the loop
  body: the loop step returns the raster as it received it, and the binned grid (or the
  exception, when the dimensions are negative) is the one obtained without that sample.
  Nothing is said here about samples less than one cell to the left of \<open>left\<close> or above
  \<open>top\<close>.
\<close>

theorem out_of_reach_sample_ignored:
  assumes "0 < pixel_size"
    and "right b \<le> geometry_x p \<or> geometry_x p \<le> left b - pixel_size \<or>
         geometry_y p \<le> bottom b \<or> top_y b + pixel_size \<le> geometry_y p"
  shows "(raster_width b pixel_size = Inr width \<and> raster_height b pixel_size = Inr height
            \<longrightarrow> rasterize_point b pixel_size width height raster p = raster) \<and>
         binned_raster (pre @ p # post) b pixel_size = binned_raster (pre @ post) b pixel_size"
proof -
  have step: "rasterize_point b pixel_size wd ht rs p = rs"
    if "raster_width b pixel_size = Inr wd" "raster_height b pixel_size = Inr ht" for wd ht rs
    using out_of_reach_index [OF assms that]
    by (auto simp add: rasterize_point_def Let_def)
  have "binned_raster (pre @ p # post) b pixel_size = binned_raster (pre @ post) b pixel_size"
    unfolding binned_raster_def
    by (auto simp: rasterize_points_append step split: sum.splits)
  with step show ?thesis by blast
qed

text \<open>The theorem at a sample right of a 2 by 2 grid.\<close>

theorem out_of_reach_sample_ignored_witness:
  "(0::real) < 10 \<and>
   right \<lparr>left = 0, bottom = 0, right = 20, top_y = 20\<rparr>
     \<le> geometry_x \<lparr>geometry_x = 25, geometry_y = 5, column_value = 7\<rparr> \<and>
   binned_raster [\<lparr>geometry_x = 25, geometry_y = 5, column_value = 7\<rparr>]
     \<lparr>left = 0, bottom = 0, right = 20, top_y = 20\<rparr> 10 =
   binned_raster [] \<lparr>left = 0, bottom = 0, right = 20, top_y = 20\<rparr> 10"
  using out_of_reach_sample_ignored
    [of 10 "\<lparr>left = 0, bottom = 0, right = 20, top_y = 20\<rparr>"
        "\<lparr>geometry_x = 25, geometry_y = 5, column_value = 7\<rparr>" 0 0 "[]" "[]" "[]"]
  by simp

text \<open>
  Claim C2 as written takes \<open>[bottom, top)\<close> for the vertical extent. A sample with
  \<open>y = top\<close> is outside that interval, yet \<open>(top - y) / cell_size = 0\<close> puts it into
  row 0, the row that covers \<open>(top - cell_size, top]\<close>.
\<close>

theorem sample_on_top_edge_counterexample:
  "geometry_y \<lparr>geometry_x = 5, geometry_y = 20, column_value = 7\<rparr>
     \<notin> {bottom \<lparr>left = 0, bottom = 0, right = 20, top_y = 20\<rparr> ..<
          top_y \<lparr>left = 0, bottom = 0, right = 20, top_y = 20\<rparr>} \<and>
   binned_raster [\<lparr>geometry_x = 5, geometry_y = 20, column_value = 7\<rparr>]
       \<lparr>left = 0, bottom = 0, right = 20, top_y = 20\<rparr> 10
     = Inr [[7, nodata], [nodata, nodata]] \<and>
   binned_raster [] \<lparr>left = 0, bottom = 0, right = 20, top_y = 20\<rparr> 10
     = Inr [[nodata, nodata], [nodata, nodata]] \<and>
   binned_raster [\<lparr>geometry_x = 5, geometry_y = 20, column_value = 7\<rparr>]
       \<lparr>left = 0, bottom = 0, right = 20, top_y = 20\<rparr> 10
     \<noteq> binned_raster [] \<lparr>left = 0, bottom = 0, right = 20, top_y = 20\<rparr> 10"
  by (simp add: binned_raster_def raster_width_def raster_height_def py_int_def np_full_def
        rasterize_point_def point_col_def point_row_def fill_nodata_def Let_def
        ceiling_def numeral_2_eq_2 nodata_def)

text \<open>
  Claim C3: the index is \<open>floor((x - left) / cell_size)\<close> also where the quotient is
  negative. The code converts with \<^verbatim>\<open>int\<close>, which drops the fractional part: a sample
  half a cell to the left of the extent gets column 0 where the floor is \<open>-1\<close>, passes the
  test \<^verbatim>\<open>0 <= col < width\<close> and is written into the grid.
\<close>

theorem index_truncates_towards_zero:
  "point_col \<lparr>left = 0, bottom = 0, right = 20, top_y = 20\<rparr> 10
       \<lparr>geometry_x = - 5, geometry_y = 15, column_value = 7\<rparr> = 0 \<and>
   \<lfloor>(geometry_x \<lparr>geometry_x = - 5, geometry_y = 15, column_value = 7\<rparr>
       - left \<lparr>left = 0, bottom = 0, right = 20, top_y = 20\<rparr>) / 10\<rfloor> = - 1 \<and>
   binned_raster [\<lparr>geometry_x = - 5, geometry_y = 15, column_value = 7\<rparr>]
       \<lparr>left = 0, bottom = 0, right = 20, top_y = 20\<rparr> 10
     = Inr [[7, nodata], [nodata, nodata]]"
  by (simp add: binned_raster_def raster_width_def raster_height_def py_int_def np_full_def
        rasterize_point_def point_col_def point_row_def fill_nodata_def Let_def
        ceiling_def numeral_2_eq_2)

text \<open>
  Claim C4, as amended. For a positive cell size and an extent with \<open>left \<le> right\<close> and
  \<open>bottom \<le> top\<close>, the width is \<open>floor((right - left) / cell_size)\<close>, the height is
  \<open>floor((top - bottom) / cell_size)\<close>, the binned grid is produced without an exception,
  and it has exactly that many rows and that many cells in every row.
\<close>

theorem grid_shape:
  assumes "0 < pixel_size" "left b \<le> right b" "bottom b \<le> top_y b"
  shows "raster_width b pixel_size = Inr \<lfloor>(right b - left b) / pixel_size\<rfloor> \<and>
         raster_height b pixel_size = Inr \<lfloor>(top_y b - bottom b) / pixel_size\<rfloor> \<and>
         (\<exists>g. binned_raster gdf b pixel_size = Inr g \<and>
              int (length g) = \<lfloor>(top_y b - bottom b) / pixel_size\<rfloor> \<and>
              (\<forall>row \<in> set g. int (length row) = \<lfloor>(right b - left b) / pixel_size\<rfloor>))"
proof -
  let ?W = "\<lfloor>(right b - left b) / pixel_size\<rfloor>" and ?H = "\<lfloor>(top_y b - bottom b) / pixel_size\<rfloor>"
  have q: "0 \<le> (right b - left b) / pixel_size" "0 \<le> (top_y b - bottom b) / pixel_size"
    using assms by simp_all
  then have nn: "0 \<le> ?W" "0 \<le> ?H" by simp_all
  have w: "raster_width b pixel_size = Inr ?W" and h: "raster_height b pixel_size = Inr ?H"
    using assms(1) q by (simp_all add: raster_width_def raster_height_def py_int_nonneg)
  let ?g = "fill_nodata (rasterize_points b pixel_size ?W ?H
              (replicate (nat ?H) (replicate (nat ?W) None)) gdf)"
  have b: "binned_raster gdf b pixel_size = Inr ?g"
    using nn by (simp add: binned_raster_def w h np_full_def)
  have "rect (nat ?H) (nat ?W) ?g"
    using rect_fill_nodata [OF rect_rasterize_points [OF rect_replicate],
            of "nat ?H" "nat ?W" b pixel_size None gdf] nn
    by simp
  then have "int (length ?g) = ?H" "\<forall>row \<in> set ?g. int (length row) = ?W"
    using nn by (simp_all add: rect_def)
  with w h b show ?thesis by blast
qed

text \<open>The theorem at the extent 0..100 by 0..100 with cell size 10.\<close>

theorem grid_shape_witness:
  "(0::real) < 10 \<and>
   left \<lparr>left = 0, bottom = 0, right = 100, top_y = 100\<rparr>
     \<le> right \<lparr>left = 0, bottom = 0, right = 100, top_y = 100\<rparr> \<and>
   bottom \<lparr>left = 0, bottom = 0, right = 100, top_y = 100\<rparr>
     \<le> top_y \<lparr>left = 0, bottom = 0, right = 100, top_y = 100\<rparr> \<and>
   raster_width \<lparr>left = 0, bottom = 0, right = 100, top_y = 100\<rparr> 10 = Inr 10 \<and>
   (\<exists>g. binned_raster [] \<lparr>left = 0, bottom = 0, right = 100, top_y = 100\<rparr> 10 = Inr g \<and>
        int (length g) = 10 \<and> (\<forall>row \<in> set g. int (length row) = 10))"
  using grid_shape [of 10 "\<lparr>left = 0, bottom = 0, right = 100, top_y = 100\<rparr>" "[]"]
  by simp

text \<open>
  Without the restriction on the extent claim C4 fails: a reference raster with an
  identity transform has \<open>bottom > top\<close>; for \<open>top = 0\<close>, \<open>bottom = 50\<close> and cell size
  100 the quotient is \<open>-1/2\<close>, \<^verbatim>\<open>int\<close> gives 0 rows and the floor is \<open>-1\<close>.
\<close>

theorem inverted_extent_counterexample:
  "raster_height \<lparr>left = 0, bottom = 50, right = 80, top_y = 0\<rparr> 100 = Inr 0 \<and>
   \<lfloor>(top_y \<lparr>left = 0, bottom = 50, right = 80, top_y = 0\<rparr>
        - bottom \<lparr>left = 0, bottom = 50, right = 80, top_y = 0\<rparr>) / 100\<rfloor> = (- 1 :: int)"
  by (simp add: raster_height_def py_int_def ceiling_def)

subsection \<open>Binning: collisions, empty cells, sentinel-valued measurements\<close>

lemmas eval_binning =
  binned_raster_def raster_width_def raster_height_def py_int_def np_full_def
  rasterize_point_def point_col_def point_row_def fill_nodata_def Let_def
  ceiling_def numeral_2_eq_2

lemma fill_nodata_forget:
  assumes "r < length raster" "c < length (raster ! r)" "raster ! r ! c = Some nodata"
  shows "fill_nodata (raster[r := (raster ! r)[c := None]]) = fill_nodata raster"
proof -
  let ?f = "\<lambda>c. case c of None \<Rightarrow> nodata | Some v \<Rightarrow> v"
  have "map ?f ((raster ! r)[c := None]) = (map ?f (raster ! r))[c := nodata]"
    by (simp add: map_update)
  also have "\<dots> = map ?f (raster ! r)"
    using assms(2,3) by (simp add: list_update_same_conv)
  finally have row: "map ?f ((raster ! r)[c := None]) = map ?f (raster ! r)" .
  have "fill_nodata (raster[r := (raster ! r)[c := None]])
      = (fill_nodata raster)[r := map ?f ((raster ! r)[c := None])]"
    unfolding fill_nodata_def by (rule map_update)
  also have "\<dots> = fill_nodata raster"
    unfolding row using assms(1) by (simp add: fill_nodata_def list_update_same_conv)
  finally show ?thesis .
qed

text \<open>
  Claim C5. Take a cell of the binned grid and the values of the samples whose computed
  index is that cell, in arrival order. If there is at least one, the cell holds the
  first value folded with each later one by \<open>(current + new) / 2\<close>. Samples 10 then 20
  give 15; a further sample 40 gives \<open>(15 + 40) / 2 = 27.5\<close>, which is not the mean
  \<open>70 / 3\<close> of the three values.
\<close>

theorem collision_running_pairwise_average:
  "(binned_raster gdf b pixel_size = Inr g \<and> r < length g \<and> c < length (g ! r) \<and>
    map column_value
      (filter (\<lambda>p. point_row b pixel_size p = int r \<and> point_col b pixel_size p = int c) gdf)
      = v # vs
    \<longrightarrow> g ! r ! c = foldl (\<lambda>cur x. (cur + x) / 2) v vs) \<and>
   binned_raster [\<lparr>geometry_x = 5, geometry_y = 15, column_value = 10\<rparr>,
                  \<lparr>geometry_x = 5, geometry_y = 15, column_value = 20\<rparr>]
       \<lparr>left = 0, bottom = 0, right = 20, top_y = 20\<rparr> 10
     = Inr [[15, nodata], [nodata, nodata]] \<and>
   binned_raster [\<lparr>geometry_x = 5, geometry_y = 15, column_value = 10\<rparr>,
                  \<lparr>geometry_x = 5, geometry_y = 15, column_value = 20\<rparr>,
                  \<lparr>geometry_x = 5, geometry_y = 15, column_value = 40\<rparr>]
       \<lparr>left = 0, bottom = 0, right = 20, top_y = 20\<rparr> 10
     = Inr [[55 / 2, nodata], [nodata, nodata]] \<and>
   (55 / 2 :: real) \<noteq> (10 + 20 + 40) / 3"
proof -
  have "g ! r ! c = foldl (\<lambda>cur x. (cur + x) / 2) v vs"
    if "binned_raster gdf b pixel_size = Inr g" "r < length g" "c < length (g ! r)"
       "map column_value
         (filter (\<lambda>p. point_row b pixel_size p = int r \<and> point_col b pixel_size p = int c) gdf)
         = v # vs"
    using binned_raster_cell [OF that(1-3)] that(4)
    by (simp add: pairwise_average_Some)
  moreover have "binned_raster [\<lparr>geometry_x = 5, geometry_y = 15, column_value = 10\<rparr>,
                  \<lparr>geometry_x = 5, geometry_y = 15, column_value = 20\<rparr>]
       \<lparr>left = 0, bottom = 0, right = 20, top_y = 20\<rparr> 10
     = Inr [[15, nodata], [nodata, nodata]]"
    by (simp add: eval_binning)
  moreover have "binned_raster [\<lparr>geometry_x = 5, geometry_y = 15, column_value = 10\<rparr>,
                  \<lparr>geometry_x = 5, geometry_y = 15, column_value = 20\<rparr>,
                  \<lparr>geometry_x = 5, geometry_y = 15, column_value = 40\<rparr>]
       \<lparr>left = 0, bottom = 0, right = 20, top_y = 20\<rparr> 10
     = Inr [[55 / 2, nodata], [nodata, nodata]]"
    by (simp add: eval_binning)
  ultimately show ?thesis by simp
qed

text \<open>The theorem at four samples, three of them in cell (0, 0), interleaved with one
  in cell (0, 1).\<close>

theorem collision_running_pairwise_average_witness:
  "binned_raster [\<lparr>geometry_x = 5, geometry_y = 15, column_value = 10\<rparr>,
                  \<lparr>geometry_x = 15, geometry_y = 15, column_value = 3\<rparr>,
                  \<lparr>geometry_x = 5, geometry_y = 15, column_value = 20\<rparr>,
                  \<lparr>geometry_x = 5, geometry_y = 15, column_value = 40\<rparr>]
       \<lparr>left = 0, bottom = 0, right = 20, top_y = 20\<rparr> 10
     = Inr [[55 / 2, 3], [nodata, nodata]] \<and>
   [[55 / 2, 3], [nodata, nodata]] ! 0 ! 0
     = foldl (\<lambda>cur x. (cur + x) / 2) (10 :: real) [20, 40]"
  using collision_running_pairwise_average
    [of "[\<lparr>geometry_x = 5, geometry_y = 15, column_value = 10\<rparr>,
          \<lparr>geometry_x = 15, geometry_y = 15, column_value = 3\<rparr>,
          \<lparr>geometry_x = 5, geometry_y = 15, column_value = 20\<rparr>,
          \<lparr>geometry_x = 5, geometry_y = 15, column_value = 40\<rparr>]"
        "\<lparr>left = 0, bottom = 0, right = 20, top_y = 20\<rparr>" 10
        "[[55 / 2, 3], [nodata, nodata]]" 0 0 10 "[20, 40]"]
  by (simp add: eval_binning)

text \<open>
  Claim C6. In the grid before smoothing, a cell that is the computed index of no
  sample holds the sentinel \<open>-9999\<close>.
\<close>

theorem empty_cell_holds_sentinel:
  assumes "binned_raster gdf b pixel_size = Inr g" "r < length g" "c < length (g ! r)"
    and "\<forall>p \<in> set gdf. \<not> (point_row b pixel_size p = int r \<and> point_col b pixel_size p = int c)"
  shows "g ! r ! c = nodata"
proof -
  have "filter (\<lambda>p. point_row b pixel_size p = int r \<and> point_col b pixel_size p = int c) gdf = []"
    using assms(4) by (simp add: filter_empty_conv)
  then show ?thesis
    by (simp add: binned_raster_cell [OF assms(1-3)])
qed

text \<open>The theorem at cell (1, 1) of a 2 by 2 grid with one sample in cell (0, 0).\<close>

theorem empty_cell_holds_sentinel_witness:
  "binned_raster [\<lparr>geometry_x = 5, geometry_y = 15, column_value = 7\<rparr>]
       \<lparr>left = 0, bottom = 0, right = 20, top_y = 20\<rparr> 10
     = Inr [[7, nodata], [nodata, nodata]] \<and>
   (1::nat) < length [[7, nodata], [nodata, nodata]] \<and>
   (1::nat) < length ([[7, nodata], [nodata, nodata]] ! 1) \<and>
   point_row \<lparr>left = 0, bottom = 0, right = 20, top_y = 20\<rparr> 10
     \<lparr>geometry_x = 5, geometry_y = 15, column_value = 7\<rparr> = 0 \<and>
   point_col \<lparr>left = 0, bottom = 0, right = 20, top_y = 20\<rparr> 10
     \<lparr>geometry_x = 5, geometry_y = 15, column_value = 7\<rparr> = 0 \<and>
   [[7, nodata], [nodata, nodata]] ! 1 ! 1 = nodata"
  using empty_cell_holds_sentinel
    [of "[\<lparr>geometry_x = 5, geometry_y = 15, column_value = 7\<rparr>]"
        "\<lparr>left = 0, bottom = 0, right = 20, top_y = 20\<rparr>" 10
        "[[7, nodata], [nodata, nodata]]" 1 1]
  by (simp add: eval_binning)

text \<open>
  Claim C10. A cell of the raster that holds a measured value equal to the sentinel is
  false in the validity mask, and replacing that cell by "no value" changes neither
  the grid handed to the smoother nor the smoother's result: the measurement cannot be
  told from a missing one.
\<close>

theorem sentinel_valued_cell_is_nodata:
  assumes "r < length raster" "c < length (raster ! r)" "raster ! r ! c = Some nodata"
  shows "valid_mask (fill_nodata raster) ! r ! c = False \<and>
         fill_nodata raster = fill_nodata (raster[r := (raster ! r)[c := None]]) \<and>
         raster_smoothed (fill_nodata raster) smoothing_window =
           raster_smoothed (fill_nodata (raster[r := (raster ! r)[c := None]])) smoothing_window"
proof -
  have "fill_nodata raster ! r ! c = nodata"
    using assms by (simp add: fill_nodata_cell)
  moreover have "r < length (fill_nodata raster)" "c < length (fill_nodata raster ! r)"
    using assms by (simp_all add: fill_nodata_def)
  ultimately have "valid_mask (fill_nodata raster) ! r ! c = False"
    by (simp add: valid_mask_def)
  then show ?thesis
    by (simp add: fill_nodata_forget [OF assms])
qed

text \<open>The theorem at a raster produced by the binning loop: cell (0, 0) receives
  \<open>-9998\<close> and \<open>-10000\<close>, whose pairwise average is \<open>-9999\<close>, and cell (0, 1)
  receives a sample whose value is \<open>-9999\<close>.\<close>

theorem sentinel_valued_cell_is_nodata_witness:
  "rasterize_points \<lparr>left = 0, bottom = 0, right = 20, top_y = 20\<rparr> 10 2 2
       [[None, None], [None, None]]
       [\<lparr>geometry_x = 5, geometry_y = 15, column_value = - 9998\<rparr>,
        \<lparr>geometry_x = 15, geometry_y = 15, column_value = - 9999\<rparr>,
        \<lparr>geometry_x = 5, geometry_y = 15, column_value = - 10000\<rparr>]
     = [[Some nodata, Some nodata], [None, None]] \<and>
   (0::nat) < length [[Some nodata, Some nodata], [None, None]] \<and>
   (0::nat) < length ([[Some nodata, Some nodata], [None, None]] ! 0) \<and>
   valid_mask (fill_nodata [[Some nodata, Some nodata], [None, None]]) ! 0 ! 0 = False \<and>
   fill_nodata [[Some nodata, Some nodata], [None, None]]
     = fill_nodata [[None, Some nodata], [None, None]]"
  using sentinel_valued_cell_is_nodata
    [of 0 "[[Some nodata, Some nodata], [None, None]]" 0 3]
  by (simp add: rasterize_point_def point_col_def point_row_def py_int_def Let_def
        nodata_def fill_nodata_def valid_mask_def)

section \<open>Properties of the smoother\<close>

subsection \<open>The filter and the cells of the result\<close>

lemma reflect_index_less: "0 < n \<Longrightarrow> reflect_index n k < n"
proof -
  assume n: "0 < n"
  have "0 \<le> k mod (2 * int n)" "k mod (2 * int n) < 2 * int n"
    using n by simp_all
  then show ?thesis
    unfolding reflect_index_def Let_def by auto
qed

lemma reflect_index_id: "0 \<le> k \<Longrightarrow> k < int n \<Longrightarrow> reflect_index n k = nat k"
  by (simp add: reflect_index_def Let_def)

lemma length_uniform_filter1d [simp]: "length (uniform_filter1d line s) = length line"
  by (simp add: uniform_filter1d_def)

lemma uniform_filter1d_nth:
  "i < length line \<Longrightarrow>
   uniform_filter1d line s ! i =
     (\<Sum>j\<leftarrow>[0..<s]. line ! reflect_index (length line) (int i - int (s div 2) + int j)) / real s"
  by (simp add: uniform_filter1d_def)

lemma rect_filter_axis0: "rect h w g \<Longrightarrow> rect h w (filter_axis0 g s)"
  by (auto simp: rect_def filter_axis0_def)

lemma rect_filter_axis1: "rect h w g \<Longrightarrow> rect h w (filter_axis1 g s)"
  by (auto simp: rect_def filter_axis1_def)

lemma rect_uniform_filter: "rect h w g \<Longrightarrow> rect h w (uniform_filter g s)"
  by (simp add: uniform_filter_def rect_filter_axis0 rect_filter_axis1)

lemma filter_axis0_nth:
  "rect h w g \<Longrightarrow> r < h \<Longrightarrow> c < w \<Longrightarrow>
   filter_axis0 g s ! r ! c = uniform_filter1d (grid_column g c) s ! r"
  by (simp add: rect_def filter_axis0_def)

lemma filter_axis1_nth:
  "r < length g \<Longrightarrow> filter_axis1 g s ! r = uniform_filter1d (g ! r) s"
  by (simp add: filter_axis1_def)

lemma rect_valid_mask: "rect h w g \<Longrightarrow> rect h w (valid_mask g)"
  by (auto simp: rect_def valid_mask_def)

lemma rect_astype_float: "rect h w m \<Longrightarrow> rect h w (astype_float m)"
  by (auto simp: rect_def astype_float_def)

lemma rect_map2:
  "rect h w a \<Longrightarrow> rect h w b \<Longrightarrow> rect h w (map2 (map2 f) a b)"
  unfolding rect_def
  by (auto dest: set_zip_leftD) (metis min.idem set_zip_leftD set_zip_rightD)

lemma map2_nth2:
  assumes "rect h w a" "rect h w b" "r < h" "c < w"
  shows "map2 (map2 f) a b ! r ! c = f (a ! r ! c) (b ! r ! c)"
  using assms by (simp add: rect_def)

lemma zeroed_nth:
  assumes "rect h w g" "r < h" "c < w"
  shows "zeroed (valid_mask g) g ! r ! c = (if g ! r ! c \<noteq> nodata then g ! r ! c else 0)"
  using assms map2_nth2 [OF rect_valid_mask [OF assms(1)] assms(1) assms(2,3)]
  by (simp add: zeroed_def valid_mask_def rect_def)

lemma weight_nth:
  assumes "rect h w g" "r < h" "c < w"
  shows "astype_float (valid_mask g) ! r ! c = (if g ! r ! c \<noteq> nodata then 1 else 0)"
  using assms by (simp add: astype_float_def valid_mask_def rect_def)

lemma raster_smoothed_cell:
  assumes "rect h w g" "r < h" "c < w"
  shows "snd (raster_smoothed g s) ! r ! c =
     (if 0 < uniform_filter (astype_float (valid_mask g)) s ! r ! c
      then Some (uniform_filter (zeroed (valid_mask g) g) s ! r ! c /
                 uniform_filter (astype_float (valid_mask g)) s ! r ! c)
      else Some nodata)"
proof -
  let ?sm = "uniform_filter (zeroed (valid_mask g) g) s"
  let ?wt = "uniform_filter (astype_float (valid_mask g)) s"
  have rsm: "rect h w ?sm"
    unfolding zeroed_def
    by (intro rect_uniform_filter rect_map2 rect_valid_mask assms(1))
  have rwt: "rect h w ?wt"
    by (intro rect_uniform_filter rect_astype_float rect_valid_mask assms(1))
  have rq: "rect h w (map2 (map2 divide_cell) ?sm ?wt)"
    by (intro rect_map2 rsm rwt)
  then have rq': "rect h w (map (map snd) (map2 (map2 divide_cell) ?sm ?wt))"
    by (auto simp: rect_def)
  have q: "map (map snd) (map2 (map2 divide_cell) ?sm ?wt) ! r ! c
             = snd (divide_cell (?sm ! r ! c) (?wt ! r ! c))"
    using map2_nth2 [OF rsm rwt assms(2,3), of divide_cell] rq assms(2,3)
    by (simp add: rect_def)
  have "snd (raster_smoothed g s) =
          where_positive ?wt (map (map snd) (map2 (map2 divide_cell) ?sm ?wt))"
    by (simp add: raster_smoothed_def np_divide_def Let_def)
  then have "snd (raster_smoothed g s) ! r ! c =
          where_positive ?wt (map (map snd) (map2 (map2 divide_cell) ?sm ?wt)) ! r ! c"
    by (rule arg_cong)
  also have "\<dots> = (if 0 < ?wt ! r ! c
                    then map (map snd) (map2 (map2 divide_cell) ?sm ?wt) ! r ! c
                    else Some nodata)"
    unfolding where_positive_def by (rule map2_nth2 [OF rwt rq' assms(2,3)])
  also have "\<dots> = (if 0 < ?wt ! r ! c then Some (?sm ! r ! c / ?wt ! r ! c) else Some nodata)"
    unfolding q by (simp add: divide_cell_def)
  finally show ?thesis .
qed

lemma grid_column_nth:
  "r < length g \<Longrightarrow> grid_column g c ! r = g ! r ! c"
  by (simp add: grid_column_def)

lemma length_grid_column [simp]: "length (grid_column g c) = length g"
  by (simp add: grid_column_def)

lemma uniform_filter1d_3_interior:
  assumes "1 \<le> i" "i + 1 < length line"
  shows "uniform_filter1d line 3 ! i = (line ! (i - 1) + line ! i + line ! (i + 1)) / 3"
proof -
  have idx: "reflect_index (length line) (int i - 1) = i - 1"
    "reflect_index (length line) (int i) = i"
    "reflect_index (length line) (int i + 1) = i + 1"
    using assms by (simp_all add: reflect_index_id nat_diff_distrib nat_add_distrib)
  have "[0..<3] = [0, 1, 2]"
    by (simp add: numeral_3_eq_3 upt_rec)
  then show ?thesis
    using assms idx by (simp add: uniform_filter1d_nth add.commute)
qed

lemma uniform_filter_3_interior:
  assumes "rect h w g" "1 \<le> r" "r + 1 < h" "1 \<le> c" "c + 1 < w"
  shows "uniform_filter g 3 ! r ! c = sum_list (neighbourhood g r c) / 9"
proof -
  have len: "length g = h" using assms(1) by (simp add: rect_def)
  have col: "filter_axis0 g 3 ! r ! j
      = (g ! (r - 1) ! j + g ! r ! j + g ! (r + 1) ! j) / 3" if "j < w" for j
    using assms(2,3) len that
    by (simp add: filter_axis0_nth [OF assms(1)] uniform_filter1d_3_interior grid_column_nth)
  have r0: "rect h w (filter_axis0 g 3)"
    using assms(1) by (rule rect_filter_axis0)
  then have lenr: "length (filter_axis0 g 3) = h" "length (filter_axis0 g 3 ! r) = w"
    using assms(3) by (simp_all add: rect_def)
  have "uniform_filter g 3 ! r ! c = uniform_filter1d (filter_axis0 g 3 ! r) 3 ! c"
    using assms(3) lenr by (simp add: uniform_filter_def filter_axis1_nth)
  also have "\<dots> = (filter_axis0 g 3 ! r ! (c - 1) + filter_axis0 g 3 ! r ! c
                    + filter_axis0 g 3 ! r ! (c + 1)) / 3"
    using assms(4,5) lenr by (simp add: uniform_filter1d_3_interior)
  also have "\<dots> = sum_list (neighbourhood g r c) / 9"
    using assms(4,5) by (simp add: col neighbourhood_def add_divide_distrib)
  finally show ?thesis .
qed

lemma neighbourhood_map:
  assumes "rect h w g" "rect h w g'" "1 \<le> r" "r + 1 < h" "1 \<le> c" "c + 1 < w"
    and "\<And>i j. i < h \<Longrightarrow> j < w \<Longrightarrow> g' ! i ! j = f (g ! i ! j)"
  shows "neighbourhood g' r c = map f (neighbourhood g r c)"
  using assms(3-6) by (simp add: neighbourhood_def assms(7))

lemma sum_list_zeroed:
  "sum_list (map (\<lambda>v. if v \<noteq> nodata then v else 0) xs) = sum_list (filter (\<lambda>v. v \<noteq> nodata) xs)"
  by (induction xs) simp_all

lemma sum_list_weights:
  "sum_list (map (\<lambda>v. if v \<noteq> nodata then 1 else 0) xs) = real (length (filter (\<lambda>v. v \<noteq> nodata) xs))"
  by (induction xs) simp_all

lemma uniform_filter1d_replicate:
  assumes "0 < s" "i < n"
  shows "uniform_filter1d (replicate n x) s ! i = x"
proof -
  have "(\<Sum>j\<leftarrow>[0..<s]. replicate n x ! reflect_index n (int i - int (s div 2) + int j))
      = (\<Sum>j\<leftarrow>[0..<s]. x)"
    using assms(2) by (intro arg_cong [where f = sum_list] map_cong refl)
      (simp add: reflect_index_less)
  also have "\<dots> = real s * x"
    by (simp add: sum_list_triv)
  finally show ?thesis
    using assms by (simp add: uniform_filter1d_nth)
qed

lemma rect_eq_replicate:
  assumes "rect h w g" "\<And>r c. r < h \<Longrightarrow> c < w \<Longrightarrow> g ! r ! c = x"
  shows "g = replicate h (replicate w x)"
proof (rule nth_equalityI)
  show "length g = length (replicate h (replicate w x))"
    using assms(1) by (simp add: rect_def)
next
  fix r
  assume "r < length g"
  then have r: "r < h" using assms(1) by (simp add: rect_def)
  then have "length (g ! r) = w" using assms(1) by (simp add: rect_def)
  then have "g ! r = replicate w x"
    using assms(2) [OF r] by (intro nth_equalityI) simp_all
  then show "g ! r = replicate h (replicate w x) ! r"
    using r by simp
qed

lemma uniform_filter_replicate:
  "uniform_filter (replicate h (replicate w x)) s = replicate h (replicate w x)"
proof (cases "1 < s")
  case False
  then show ?thesis by (simp add: uniform_filter_def)
next
  case True
  let ?g = "replicate h (replicate w x)"
  have pos: "0 < nat s" using True by simp
  have rg: "rect h w ?g" by (rule rect_replicate)
  have a0: "filter_axis0 ?g (nat s) = ?g"
  proof (rule rect_eq_replicate [OF rect_filter_axis0 [OF rg]])
    fix r c
    assume rc: "r < h" "c < w"
    have "grid_column ?g c = replicate h x"
      using rc by (simp add: grid_column_def)
    then show "filter_axis0 ?g (nat s) ! r ! c = x"
      using rc pos by (simp add: filter_axis0_nth [OF rg] uniform_filter1d_replicate)
  qed
  have "filter_axis1 ?g (nat s) = ?g"
  proof (rule rect_eq_replicate [OF rect_filter_axis1 [OF rg]])
    fix r c
    assume rc: "r < h" "c < w"
    then show "filter_axis1 ?g (nat s) ! r ! c = x"
      using pos by (simp add: filter_axis1_nth uniform_filter1d_replicate)
  qed
  with a0 True show ?thesis
    by (simp add: uniform_filter_def)
qed

lemma upt_3: "[0..<3] = [0, 1, 2]"
  by (simp add: numeral_3_eq_3 upt_rec)

lemmas eval_smoothing =
  raster_smoothed_def valid_mask_def zeroed_def astype_float_def
  uniform_filter_def filter_axis0_def filter_axis1_def grid_column_def
  uniform_filter1d_def reflect_index_def np_divide_def divide_cell_def
  where_positive_def Let_def upt_3

subsection \<open>Normalised focal mean\<close>

text \<open>
  Claim C1: where the weight is exactly 0 the division is never evaluated. In the code
  the quotient \<^verbatim>\<open>smoothed_raster / weight_mask\<close> is computed for the whole array before
  \<^verbatim>\<open>np.where\<close> selects. On a 1 by 1 grid without samples the weight is 0, the
  division 0/0 is carried out, yields NaN and issues the warning "invalid value
  encountered in divide"; only the selected output is the sentinel.
\<close>

theorem division_evaluated_at_zero_weight:
  "binned_raster [] \<lparr>left = 0, bottom = 0, right = 10, top_y = 10\<rparr> 10 = Inr [[nodata]] \<and>
   uniform_filter (astype_float (valid_mask [[nodata]])) 3 = [[0]] \<and>
   np_divide (uniform_filter (zeroed (valid_mask [[nodata]]) [[nodata]]) 3)
             (uniform_filter (astype_float (valid_mask [[nodata]])) 3)
     = ([InvalidValue], [[None]]) \<and>
   raster_smoothed [[nodata]] 3 = ([InvalidValue], [[Some nodata]])"
proof -
  have b: "binned_raster [] \<lparr>left = 0, bottom = 0, right = 10, top_y = 10\<rparr> 10 = Inr [[nodata]]"
    by (simp add: eval_binning)
  have w: "uniform_filter (astype_float (valid_mask [[nodata]])) 3 = [[0]]"
    by (simp add: eval_smoothing)
  have z: "uniform_filter (zeroed (valid_mask [[nodata]]) [[nodata]]) 3 = [[0]]"
    by (simp add: eval_smoothing)
  have d: "np_divide [[0]] [[0]] = ([InvalidValue], [[None]])"
    by (simp add: np_divide_def divide_cell_def)
  have s: "raster_smoothed [[nodata]] 3 = ([InvalidValue], [[Some nodata]])"
    unfolding raster_smoothed_def Let_def w z d
    by (simp add: where_positive_def)
  from b w z d s show ?thesis by simp
qed

text \<open>
  Claim C7. For a cell that is not on the border of the grid and a window of size 3,
  let \<open>vs\<close> be the values of the valid (non-sentinel) cells among the nine cells of its
  neighbourhood. If there is none, the smoothed cell is the sentinel; otherwise it is
  the arithmetic mean of \<open>vs\<close>. (Exact arithmetic.)
\<close>

theorem focal_mean_3x3_interior:
  assumes "rect h w g" "1 \<le> r" "r + 1 < h" "1 \<le> c" "c + 1 < w"
  shows "snd (raster_smoothed g 3) ! r ! c =
     (let vs = filter (\<lambda>v. v \<noteq> nodata) (neighbourhood g r c)
      in if vs = [] then Some nodata else Some (sum_list vs / real (length vs)))"
proof -
  let ?vs = "filter (\<lambda>v. v \<noteq> nodata) (neighbourhood g r c)"
  have rc: "r < h" "c < w" using assms(3,5) by simp_all
  have rz: "rect h w (zeroed (valid_mask g) g)"
    unfolding zeroed_def by (intro rect_map2 rect_valid_mask assms(1))
  have rm: "rect h w (astype_float (valid_mask g))"
    by (intro rect_astype_float rect_valid_mask assms(1))
  have sm: "uniform_filter (zeroed (valid_mask g) g) 3 ! r ! c = sum_list ?vs / 9"
    using uniform_filter_3_interior [OF rz assms(2-5)]
      neighbourhood_map [OF assms(1) rz assms(2-5),
        of "\<lambda>v. if v \<noteq> nodata then v else 0"]
    by (simp add: zeroed_nth [OF assms(1)] sum_list_zeroed)
  have wt: "uniform_filter (astype_float (valid_mask g)) 3 ! r ! c = real (length ?vs) / 9"
    using uniform_filter_3_interior [OF rm assms(2-5)]
      neighbourhood_map [OF assms(1) rm assms(2-5),
        of "\<lambda>v. if v \<noteq> nodata then 1 else 0"]
    by (simp add: weight_nth [OF assms(1)] sum_list_weights)
  show ?thesis
    unfolding raster_smoothed_cell [OF assms(1) rc] sm wt Let_def
    by simp
qed

text \<open>The theorem at the centre of a 3 by 3 grid with the valid values 1, 3 and 5,
  and at the centre of a 3 by 3 grid without a valid cell.\<close>

theorem focal_mean_3x3_interior_witness:
  "rect 3 3 [[1, nodata, 3], [nodata, 5, nodata], [nodata, nodata, nodata]] \<and>
   (1::nat) \<le> 1 \<and> (1::nat) + 1 < 3 \<and>
   snd (raster_smoothed [[1, nodata, 3], [nodata, 5, nodata], [nodata, nodata, nodata]] 3) ! 1 ! 1
     = Some ((1 + 3 + 5) / 3) \<and>
   snd (raster_smoothed
          [[nodata, nodata, nodata], [nodata, nodata, nodata], [nodata, nodata, nodata]] 3) ! 1 ! 1
     = Some nodata"
  using focal_mean_3x3_interior
      [of 3 3 "[[1, nodata, 3], [nodata, 5, nodata], [nodata, nodata, nodata]]" 1 1]
    focal_mean_3x3_interior
      [of 3 3 "[[nodata, nodata, nodata], [nodata, nodata, nodata], [nodata, nodata, nodata]]" 1 1]
  by (simp add: rect_def neighbourhood_def nodata_def)

text \<open>
  Claim C8. A grid of any shape whose cells all hold the same value, different from the
  sentinel, is returned unchanged by the smoothing stage for every window size, border
  rows and columns included (the reflected cells carry the same value), and no warning
  is issued. (Exact arithmetic.)
\<close>

theorem constant_grid_unchanged:
  assumes "v \<noteq> nodata"
  shows "raster_smoothed (replicate h (replicate w v)) smoothing_window
           = ([], replicate h (replicate w (Some v)))"
proof -
  have vm: "valid_mask (replicate h (replicate w v)) = replicate h (replicate w True)"
    using assms by (simp add: valid_mask_def)
  have z: "zeroed (replicate h (replicate w True)) (replicate h (replicate w v))
             = replicate h (replicate w v)"
    by (simp add: zeroed_def zip_replicate)
  have f: "astype_float (replicate h (replicate w True)) = replicate h (replicate w 1)"
    by (simp add: astype_float_def)
  have d: "np_divide (replicate h (replicate w v)) (replicate h (replicate w 1))
             = ([], replicate h (replicate w (Some v)))"
    by (simp add: np_divide_def zip_replicate divide_cell_def Let_def)
  have wp: "where_positive (replicate h (replicate w 1)) (replicate h (replicate w (Some v)))
             = replicate h (replicate w (Some v))"
    by (simp add: where_positive_def zip_replicate)
  show ?thesis
    by (simp add: raster_smoothed_def vm z f uniform_filter_replicate d wp)
qed

text \<open>The theorem at a 2 by 3 grid of sevens with a window of size 5, wider than the
  grid.\<close>

theorem constant_grid_unchanged_witness:
  "(7::real) \<noteq> nodata \<and>
   raster_smoothed [[7, 7, 7], [7, 7, 7]] 5 = ([], [[Some 7, Some 7, Some 7], [Some 7, Some 7, Some 7]])"
  using constant_grid_unchanged [of 7 2 3 5]
  by (simp add: nodata_def numeral_2_eq_2 numeral_3_eq_3)

section \<open>Properties of the batch driver\<close>

text \<open>
  The exceptions of the model are the ones the clause \<^verbatim>\<open>except Exception\<close> catches;
  interrupts of the interpreter itself are not modelled.
\<close>

lemma process_shapefiles_log:
  "process_shapefiles read_file open_ref write_raster ref outf ps win out stems =
     out @ map (\<lambda>stem.
       case process_one read_file open_ref write_raster ref outf ps win stem of
         Inl e \<Rightarrow> Error_processing (stem @ ''.shp'') e
       | Inr output_raster_path \<Rightarrow> Processed (stem @ ''.shp'') output_raster_path) stems"
  by (induction stems arbitrary: out) simp_all

text \<open>
  Claim C9. If the processing of one shapefile fails (reading it, opening the reference
  raster, computing the grid or writing it), the loop prints an error line for that
  file, everything printed for the files before it is kept, and every file after it is
  processed exactly as it would be in a batch of its own.
\<close>

theorem one_bad_file_does_not_abort_batch:
  assumes "process_one read_file open_ref write_raster ref outf ps win stem = Inl e"
  shows "process_shapefiles read_file open_ref write_raster ref outf ps win out
           (pre @ stem # rest) =
         process_shapefiles read_file open_ref write_raster ref outf ps win out pre @
         [Error_processing (stem @ ''.shp'') e] @
         process_shapefiles read_file open_ref write_raster ref outf ps win [] rest"
  using assms by (simp add: process_shapefiles_log)

text \<open>The theorem at a batch of three shapefiles of which the second cannot be read.\<close>

theorem one_bad_file_does_not_abort_batch_witness:
  "process_one
     (\<lambda>path. if path = ''bad.shp'' then Inl (IOError ''unreadable'') else Inr [])
     (\<lambda>path. Inr \<lparr>left = 0, bottom = 0, right = 10, top_y = 10\<rparr>)
     (\<lambda>path out. Inr ()) ''ref.tif'' ''out'' 10 3 ''bad''
   = Inl (IOError ''unreadable'') \<and>
   process_shapefiles
     (\<lambda>path. if path = ''bad.shp'' then Inl (IOError ''unreadable'') else Inr [])
     (\<lambda>path. Inr \<lparr>left = 0, bottom = 0, right = 10, top_y = 10\<rparr>)
     (\<lambda>path out. Inr ()) ''ref.tif'' ''out'' 10 3 [] ([''a''] @ ''bad'' # [''c''])
   = [Processed ''a.shp'' ''out/a.tif'',
      Error_processing ''bad.shp'' (IOError ''unreadable''),
      Processed ''c.shp'' ''out/c.tif'']"
  using one_bad_file_does_not_abort_batch
    [of "\<lambda>path. if path = ''bad.shp'' then Inl (IOError ''unreadable'') else Inr []"
        "\<lambda>path. Inr \<lparr>left = 0, bottom = 0, right = 10, top_y = 10\<rparr>"
        "\<lambda>path out. Inr ()" "''ref.tif''" "''out''" 10 3 "''bad''"
        "IOError ''unreadable''" "[]" "[''a'']" "[''c'']"]
  by (simp add: process_one_def create_raster_from_points_with_smoothing_def
        binned_raster_def raster_width_def raster_height_def py_int_def np_full_def
        split: prod.splits)

end
